theory Spec2Isabelle
  imports Main
begin

section \<open>The error model of stdlib/errors.go\<close>

text \<open>
  The development embeds the structured error primitive of \<^verbatim>\<open>errors.go\<close>: the value
  type \<^verbatim>\<open>Error\<close>, the pointer type \<^verbatim>\<open>*ErrorGroup\<close> and the slice type
  \<^verbatim>\<open>errorChain\<close>, together with the parts of Go's \<^verbatim>\<open>errors\<close> and \<^verbatim>\<open>reflect\<close>
  packages that the code calls (\<^verbatim>\<open>errors.As\<close>, \<^verbatim>\<open>errors.Is\<close>, \<^verbatim>\<open>reflect.DeepEqual\<close>).
\<close>

subsection \<open>Values\<close>

text \<open>
  \<^verbatim>\<open>Bitmask\<close> is declared elsewhere in the package; the code below only compares
  flags and names the constant \<^verbatim>\<open>ErrorFlagUnknown\<close>, so an unbounded natural number
  stands for it. \<^verbatim>\<open>time.Duration\<close> is a signed 64-bit count of nanoseconds that the
  code only compares.
\<close>

type_synonym Bitmask = nat
type_synonym Duration = int
type_synonym addr = nat

record DebugExtras =
  StackTrace :: string

record Link =
  URL :: string
  Description :: string

text \<open>A Go slice that is only compared and extended is a list; \<open>None\<close> is the nil slice,
  which \<^verbatim>\<open>reflect.DeepEqual\<close> tells apart from an empty one.\<close>

record HelpExtras =
  Links :: "Link list option"

record RetryExtras =
  Delay :: Duration

record ErrorExtras =
  Debug :: DebugExtras
  Help :: HelpExtras
  Retry :: RetryExtras
  Tags :: "string list option"

text \<open>
  A value of the interface type \<^verbatim>\<open>error\<close> is one of: an \<^verbatim>\<open>Error\<close> struct, a
  \<^verbatim>\<open>*ErrorGroup\<close> pointer (\<open>None\<close> is the typed nil pointer, which is a non-nil
  interface value), an \<^verbatim>\<open>errorChain\<close>, or an error of a type foreign to the package.
  A foreign error is opaque: it has an identity (the address of the value), a message,
  no \<^verbatim>\<open>Is\<close> or \<^verbatim>\<open>As\<close> method, and an optional cause that its \<^verbatim>\<open>Unwrap\<close>
  returns (as the values of \<^verbatim>\<open>errors.New\<close> and of \<^verbatim>\<open>fmt.Errorf\<close> with and
  without \<^verbatim>\<open>%w\<close>). The nil interface is \<open>None :: error option\<close>.
  The backing array of an \<^verbatim>\<open>errorChain\<close> is written once, when the chain is made,
  so a chain carries its elements.
\<close>

datatype Error =
  Error (Code: string) (Extras: ErrorExtras) (Flags: Bitmask) (Message: string)
        (Namespace: string) (Wrapped: "error option")
and error =
    ErrorVal Error
  | GroupPtr "addr option"
  | ChainVal "Error list"
  | Foreign addr string "error option"

definition ErrorNamespaceDefault :: string where
  "ErrorNamespaceDefault = ''stdlibx-go''"

text \<open>\<^verbatim>\<open>ErrorFlagUnknown Bitmask = 1 << iota\<close> is the second constant of its block, so
  \<^verbatim>\<open>iota\<close> is 1 there.\<close>

definition ErrorFlagUnknown :: Bitmask where
  "ErrorFlagUnknown = 2 ^ 1"

definition zero_Extras :: ErrorExtras where
  "zero_Extras = \<lparr>Debug = \<lparr>StackTrace = ''''\<rparr>, Help = \<lparr>Links = None\<rparr>,
                   Retry = \<lparr>Delay = 0\<rparr>, Tags = None\<rparr>"

definition zero_Error :: Error where
  "zero_Error = Error '''' zero_Extras 0 '''' '''' None"

definition ErrUndefined :: Error where
  "ErrUndefined = Error ''undefined'' zero_Extras ErrorFlagUnknown
     ''wrapped the following error which is not well-defined'' ErrorNamespaceDefault None"

subsection \<open>The heap\<close>

text \<open>
  A slice header points into a backing array: \<open>s_base\<close> is the array, \<open>s_off\<close> the index
  of the slice's first element in it, \<open>s_len\<close> and \<open>s_cap\<close> are \<^verbatim>\<open>len\<close> and \<^verbatim>\<open>cap\<close>.
  Address 0 is nil. An \<^verbatim>\<open>ErrorGroupFormatter\<close> is either the package's default
  formatter or a function of the caller; \<open>None\<close> is the nil function.
\<close>

record slice =
  s_base :: addr
  s_off :: nat
  s_len :: nat
  s_cap :: nat

datatype formatter = FormatterDefault | FormatterCustom "Error list \<Rightarrow> string"

record ErrorGroup =
  Errors :: slice
  Formatter :: "formatter option"

text \<open>\<open>growslice\<close> is the capacity the runtime gives a slice that \<^verbatim>\<open>append\<close> has to
  reallocate for a given length; the language fixes only that it is large enough.\<close>

record heap =
  groups :: "addr \<Rightarrow> ErrorGroup"
  arrays :: "addr \<Rightarrow> nat \<Rightarrow> Error"
  next_addr :: addr
  growslice :: "nat \<Rightarrow> nat"

datatype fault = NilDereference | NilFuncCall | IndexOutOfRange | OutOfFuel

definition nil_slice :: slice where
  "nil_slice = \<lparr>s_base = 0, s_off = 0, s_len = 0, s_cap = 0\<rparr>"

definition slice_read :: "heap \<Rightarrow> slice \<Rightarrow> Error list" where
  "slice_read h s = map (arrays h (s_base s)) [s_off s ..< s_off s + s_len s]"

text \<open>\<^verbatim>\<open>s[i] = v\<close>\<close>

definition slice_store :: "heap \<Rightarrow> slice \<Rightarrow> nat \<Rightarrow> Error \<Rightarrow> fault + heap" where
  "slice_store h s i v =
     (if i < s_len s
      then Inr (h\<lparr>arrays := (arrays h)(s_base s := (arrays h (s_base s))(s_off s + i := v))\<rparr>)
      else Inl IndexOutOfRange)"

text \<open>\<^verbatim>\<open>make([]Error, n, c)\<close>: a fresh array of zero values.\<close>

definition slice_make :: "heap \<Rightarrow> nat \<Rightarrow> nat \<Rightarrow> heap \<times> slice" where
  "slice_make h n c =
     (h\<lparr>arrays := (arrays h)(next_addr h := (\<lambda>_. zero_Error)), next_addr := Suc (next_addr h)\<rparr>,
      \<lparr>s_base = next_addr h, s_off = 0, s_len = n, s_cap = max n c\<rparr>)"

text \<open>\<^verbatim>\<open>copy(dst, src)\<close> copies \<^verbatim>\<open>min(len(dst), len(src))\<close> elements.\<close>

definition slice_copy :: "heap \<Rightarrow> slice \<Rightarrow> slice \<Rightarrow> heap" where
  "slice_copy h dst src =
     (let vs = take (s_len dst) (slice_read h src) in
      h\<lparr>arrays := (arrays h)(s_base dst :=
           (\<lambda>k. if s_off dst \<le> k \<and> k < s_off dst + length vs
                then vs ! (k - s_off dst) else arrays h (s_base dst) k))\<rparr>)"

text \<open>\<^verbatim>\<open>append(s, v)\<close>: in place when the capacity allows, else into a fresh array.\<close>

definition slice_append :: "heap \<Rightarrow> slice \<Rightarrow> Error \<Rightarrow> heap \<times> slice" where
  "slice_append h s v =
     (if s_len s < s_cap s
      then (h\<lparr>arrays := (arrays h)(s_base s := (arrays h (s_base s))(s_off s + s_len s := v))\<rparr>,
            s\<lparr>s_len := Suc (s_len s)\<rparr>)
      else
        (let vs = slice_read h s @ [v] in
         (h\<lparr>arrays := (arrays h)(next_addr h :=
               (\<lambda>k. if k < length vs then vs ! k else zero_Error)),
             next_addr := Suc (next_addr h)\<rparr>,
          \<lparr>s_base = next_addr h, s_off = 0, s_len = Suc (s_len s),
           s_cap = max (Suc (s_len s)) (growslice h (Suc (s_len s)))\<rparr>)))"

text \<open>The elements of the group at a (non-nil) address.\<close>

definition elems :: "heap \<Rightarrow> addr \<Rightarrow> Error list" where
  "elems h a = slice_read h (Errors (groups h a))"

subsection \<open>reflect.DeepEqual, Equal and IsZero\<close>

text \<open>
  \<^verbatim>\<open>reflect.DeepEqual(x, y)\<close> first compares the dynamic types of its arguments:
  values of distinct types are never deeply equal. The program applies it to the three
  extras structs and, in \<^verbatim>\<open>IsZero\<close>, to an \<^verbatim>\<open>Error\<close> and the \<^verbatim>\<open>*Error\<close> that
  \<^verbatim>\<open>new(Error)\<close> returns. A pointer is represented by its pointee. At equal types the
  comparison is structural; for two \<^verbatim>\<open>Error\<close> values it is the equality of the model,
  which the program never asks for.
\<close>

datatype gotype = TError | TErrorPtr | TDebugExtras | THelpExtras | TRetryExtras

datatype govalue =
    VError Error
  | VErrorPtr Error
  | VDebugExtras DebugExtras
  | VHelpExtras HelpExtras
  | VRetryExtras RetryExtras

fun TypeOf :: "govalue \<Rightarrow> gotype" where
  "TypeOf (VError _) = TError"
| "TypeOf (VErrorPtr _) = TErrorPtr"
| "TypeOf (VDebugExtras _) = TDebugExtras"
| "TypeOf (VHelpExtras _) = THelpExtras"
| "TypeOf (VRetryExtras _) = TRetryExtras"

definition DeepEqual :: "govalue \<Rightarrow> govalue \<Rightarrow> bool" where
  "DeepEqual x y = (if TypeOf x \<noteq> TypeOf y then False else x = y)"

text \<open>\<^verbatim>\<open>new(Error)\<close>: a pointer to a zero \<^verbatim>\<open>Error\<close>.\<close>

definition new_Error :: govalue where
  "new_Error = VErrorPtr zero_Error"

definition Equal :: "Error \<Rightarrow> Error \<Rightarrow> bool" where
  "Equal e e2 =
     (Code e = Code e2 \<and>
      Message e = Message e2 \<and>
      Namespace e = Namespace e2 \<and>
      Flags e = Flags e2 \<and>
      DeepEqual (VDebugExtras (Debug (Extras e))) (VDebugExtras (Debug (Extras e2))) \<and>
      DeepEqual (VHelpExtras (Help (Extras e))) (VHelpExtras (Help (Extras e2))) \<and>
      DeepEqual (VRetryExtras (Retry (Extras e))) (VRetryExtras (Retry (Extras e2))))"

definition IsZero :: "Error \<Rightarrow> bool" where
  "IsZero e = DeepEqual (VError e) new_Error"

subsection \<open>ErrorExtras.WithTag and Error.WithTag\<close>

text \<open>\<^verbatim>\<open>append(e.Tags, tags...)\<close> on a nil slice with nothing to add stays nil.\<close>

definition append_tags :: "string list option \<Rightarrow> string list \<Rightarrow> string list option" where
  "append_tags ts tags =
     (case ts of
        None \<Rightarrow> (if tags = [] then None else Some tags)
      | Some xs \<Rightarrow> Some (xs @ tags))"

definition Extras_WithTag :: "ErrorExtras \<Rightarrow> string list \<Rightarrow> ErrorExtras" where
  "Extras_WithTag x tags =
     \<lparr>Debug = Debug x, Help = Help x, Retry = Retry x, Tags = append_tags (Tags x) tags\<rparr>"

definition WithTag :: "Error \<Rightarrow> string list \<Rightarrow> Error" where
  "WithTag e tags =
     Error (Code e) (Extras_WithTag (Extras e) tags) (Flags e) (Message e) (Namespace e)
           (Wrapped e)"

subsection \<open>errorChain\<close>

text \<open>\<^verbatim>\<open>errorChain.Unwrap\<close>; \<^verbatim>\<open>e[1:]\<close> shares the array of \<^verbatim>\<open>e\<close>.\<close>

definition chain_Unwrap :: "Error list \<Rightarrow> error option" where
  "chain_Unwrap e = (if length e \<le> 1 then None else Some (ChainVal (drop 1 e)))"

subsection \<open>ErrorGroup: the methods that only read\<close>

text \<open>\<^verbatim>\<open>ErrorGroup.Len\<close>, \<^verbatim>\<open>ErrorGroup.Slice\<close>, \<^verbatim>\<open>ErrorGroup.Empty\<close> and
  \<^verbatim>\<open>ErrorGroup.ErrorOrNil\<close>; a nil receiver faults where the method reads a field
  without a guard.\<close>

definition Len :: "heap \<Rightarrow> addr option \<Rightarrow> fault + nat" where
  "Len h g = (case g of None \<Rightarrow> Inl NilDereference
              | Some a \<Rightarrow> Inr (s_len (Errors (groups h a))))"

definition Slice :: "heap \<Rightarrow> addr option \<Rightarrow> fault + slice" where
  "Slice h g = (case g of None \<Rightarrow> Inl NilDereference
                | Some a \<Rightarrow> Inr (Errors (groups h a)))"

definition Empty :: "heap \<Rightarrow> addr option \<Rightarrow> bool" where
  "Empty h g = (case g of None \<Rightarrow> True
                | Some a \<Rightarrow> s_len (Errors (groups h a)) = 0)"

definition ErrorOrNil :: "heap \<Rightarrow> addr option \<Rightarrow> error option" where
  "ErrorOrNil h g =
     (case g of None \<Rightarrow> None
      | Some a \<Rightarrow>
          (if s_base (Errors (groups h a)) = 0 \<or> s_len (Errors (groups h a)) = 0
           then None else Some (GroupPtr (Some a))))"

text \<open>
  \<^verbatim>\<open>ErrorGroup.Unwrap\<close>. With two or more elements it makes a slice \<^verbatim>\<open>errs\<close> of the
  same length, copies the elements into it and returns \<^verbatim>\<open>errorChain(errs)\<close>;
  \<open>Unwrap_errs\<close> is that slice and the heap that holds it.
\<close>

definition Unwrap_errs :: "heap \<Rightarrow> addr \<Rightarrow> heap \<times> slice" where
  "Unwrap_errs h a =
     (let (h1, errs) = slice_make h (s_len (Errors (groups h a))) (s_len (Errors (groups h a)))
      in (slice_copy h1 errs (Errors (groups h1 a)), errs))"

definition ErrorGroup_Unwrap :: "heap \<Rightarrow> addr option \<Rightarrow> heap \<times> error option" where
  "ErrorGroup_Unwrap h g =
     (case g of None \<Rightarrow> (h, None)
      | Some a \<Rightarrow>
          (if s_len (Errors (groups h a)) = 0 then (h, None)
           else if s_len (Errors (groups h a)) = 1
           then (h, Some (ErrorVal (arrays h (s_base (Errors (groups h a)))
                                      (s_off (Errors (groups h a)) + 0))))
           else (let (h2, errs) = Unwrap_errs h a
                 in (h2, Some (ChainVal (slice_read h2 errs))))))"

subsection \<open>errors.As at the two target types the package uses\<close>

text \<open>
  \<^verbatim>\<open>errors.As(err, target)\<close> walks the chain of \<^verbatim>\<open>err\<close>: a value assignable to the
  target's type is stored and ends the walk with true; a value with an \<^verbatim>\<open>As\<close> method
  is asked; otherwise the walk goes on with what \<^verbatim>\<open>Unwrap\<close> returns and ends with
  false at nil. Of the package's types only \<^verbatim>\<open>errorChain\<close> has an \<^verbatim>\<open>As\<close> method;
  \<^verbatim>\<open>Error\<close>, \<^verbatim>\<open>*ErrorGroup\<close> and \<^verbatim>\<open>errorChain\<close> have \<^verbatim>\<open>Unwrap\<close>.
\<close>

text \<open>\<^verbatim>\<open>errorChain.As\<close> with a target of type \<^verbatim>\<open>*Error\<close>: element 0 is assignable.\<close>

definition chain_As_Error :: "Error list \<Rightarrow> Error option" where
  "chain_As_Error e = (if length e = 0 then None else Some (e ! 0))"

text \<open>
  Target \<^verbatim>\<open>*Error\<close>. A group is not assignable and is unwrapped: to nil, to its only
  element, or to a chain, which answers with its element 0. The array that
  \<^verbatim>\<open>ErrorGroup.Unwrap\<close> allocates on the way is unreachable after the call, so the walk
  leaves the heap as it is. An empty chain unwraps to nil.
\<close>

fun as_Error :: "heap \<Rightarrow> error \<Rightarrow> Error option" where
  "as_Error h (ErrorVal e) = Some e"
| "as_Error h (GroupPtr g) =
     (case snd (ErrorGroup_Unwrap h g) of
        None \<Rightarrow> None
      | Some (ErrorVal e) \<Rightarrow> Some e
      | Some (ChainVal c) \<Rightarrow> chain_As_Error c
      | Some _ \<Rightarrow> None)"
| "as_Error h (ChainVal c) = chain_As_Error c"
| "as_Error h (Foreign i m None) = None"
| "as_Error h (Foreign i m (Some w)) = as_Error h w"

text \<open>
  Target \<^verbatim>\<open>**ErrorGroup\<close>. An \<^verbatim>\<open>Error\<close> is unwrapped to its cause; a group pointer
  is assignable, the typed nil pointer too; a chain asks its element 0 and is then
  unwrapped to the rest of the chain.
\<close>

fun Error_As_Group :: "Error \<Rightarrow> addr option option"
and as_Group :: "error \<Rightarrow> addr option option"
and chain_As_Group :: "Error list \<Rightarrow> addr option option" where
  "Error_As_Group (Error c x f m n None) = None"
| "Error_As_Group (Error c x f m n (Some w)) = as_Group w"
| "as_Group (ErrorVal e) = Error_As_Group e"
| "as_Group (GroupPtr g) = Some g"
| "as_Group (ChainVal c) = chain_As_Group c"
| "as_Group (Foreign i m None) = None"
| "as_Group (Foreign i m (Some w)) = as_Group w"
| "chain_As_Group [] = None"
| "chain_As_Group (e # c) =
     (case Error_As_Group e of Some g \<Rightarrow> Some g | None \<Rightarrow> chain_As_Group c)"

text \<open>The two entry points: \<^verbatim>\<open>errors.As\<close> answers false for a nil \<^verbatim>\<open>err\<close>.\<close>

definition errors_As_Error :: "heap \<Rightarrow> error option \<Rightarrow> Error option" where
  "errors_As_Error h err = (case err of None \<Rightarrow> None | Some w \<Rightarrow> as_Error h w)"

definition errors_As_Group :: "error option \<Rightarrow> addr option option" where
  "errors_As_Group err = (case err of None \<Rightarrow> None | Some w \<Rightarrow> as_Group w)"

subsection \<open>Error: Unwrap, Copy, Wrap, Is\<close>

definition Unwrap :: "Error \<Rightarrow> error option" where
  "Unwrap e = Wrapped e"

text \<open>
  \<^verbatim>\<open>Error.Copy\<close> calls itself on the \<^verbatim>\<open>Error\<close> that \<^verbatim>\<open>errors.As\<close> finds in the
  cause. That value may come out of a group on the heap, so the recursion need not end;
  the first argument bounds its depth.
\<close>

fun Copy :: "nat \<Rightarrow> heap \<Rightarrow> Error \<Rightarrow> fault + Error" where
  "Copy n h e =
     (case errors_As_Error h (Wrapped e) of
        Some wrapped \<Rightarrow>
          (case n of
             0 \<Rightarrow> Inl OutOfFuel
           | Suc k \<Rightarrow>
               (case Copy k h wrapped of
                  Inl ft \<Rightarrow> Inl ft
                | Inr c \<Rightarrow> Inr (Error (Code e) (Extras e) (Flags e) (Message e) (Namespace e)
                                  (Some (ErrorVal c)))))
      | None \<Rightarrow> Inr (Error (Code e) (Extras e) (Flags e) (Message e) (Namespace e)
                       (Wrapped e)))"

definition Wrap :: "nat \<Rightarrow> heap \<Rightarrow> Error \<Rightarrow> error option \<Rightarrow> fault + Error" where
  "Wrap n h e err =
     (case err of
        None \<Rightarrow> Inr e
      | Some w \<Rightarrow>
          (case (if IsZero e then errors_As_Error h (Some w) else None) of
             Some e2 \<Rightarrow> Copy n h e2
           | None \<Rightarrow> Inr (Error (Code e) (Extras e) (Flags e) (Message e) (Namespace e)
                            (Some w))))"

text \<open>\<^verbatim>\<open>Error.Is\<close>\<close>

definition Error_Is :: "heap \<Rightarrow> Error \<Rightarrow> error option \<Rightarrow> bool" where
  "Error_Is h e target =
     (case errors_As_Error h target of
        None \<Rightarrow> False
      | Some err \<Rightarrow> Equal e err)"

subsection \<open>errors.Is and errorChain.Is\<close>

text \<open>
  \<^verbatim>\<open>errors.Is(err, target)\<close> compares the two when one of them is nil; otherwise it
  walks the chain of \<^verbatim>\<open>err\<close>: a value equal to a target of comparable type ends the
  walk with true, a value with an \<^verbatim>\<open>Is\<close> method is asked, and the walk goes on with
  what \<^verbatim>\<open>Unwrap\<close> returns. \<^verbatim>\<open>Error\<close> holds slices and \<^verbatim>\<open>errorChain\<close> is one, so
  neither is comparable. The walk may run through groups on the heap; the first argument
  bounds the number of calls.
\<close>

fun comparable :: "error \<Rightarrow> bool" where
  "comparable (ErrorVal e) = False"
| "comparable (GroupPtr g) = True"
| "comparable (ChainVal c) = False"
| "comparable (Foreign i m w) = True"

fun errors_Is :: "nat \<Rightarrow> heap \<Rightarrow> error option \<Rightarrow> error option \<Rightarrow> fault + bool"
and errors_is :: "nat \<Rightarrow> heap \<Rightarrow> error \<Rightarrow> error \<Rightarrow> fault + bool"
and chain_Is :: "nat \<Rightarrow> heap \<Rightarrow> Error list \<Rightarrow> error option \<Rightarrow> fault + bool" where
  "errors_Is n h None target = Inr (None = target)"
| "errors_Is n h (Some err) None = Inr False"
| "errors_Is n h (Some err) (Some t) = errors_is n h err t"
| "errors_is 0 h err t = Inl OutOfFuel"
| "errors_is (Suc n) h err t =
     (if comparable t \<and> err = t then Inr True
      else
        (case (case err of
                 ErrorVal e \<Rightarrow> Inr (Error_Is h e (Some t))
               | ChainVal c \<Rightarrow> chain_Is n h c (Some t)
               | _ \<Rightarrow> Inr False) of
           Inl ft \<Rightarrow> Inl ft
         | Inr True \<Rightarrow> Inr True
         | Inr False \<Rightarrow>
             (case (case err of
                      ErrorVal e \<Rightarrow> Unwrap e
                    | GroupPtr g \<Rightarrow> snd (ErrorGroup_Unwrap h g)
                    | ChainVal c \<Rightarrow> chain_Unwrap c
                    | Foreign i m w \<Rightarrow> w) of
                None \<Rightarrow> Inr False
              | Some w \<Rightarrow> errors_is n h w t)))"
| "chain_Is n h e target =
     (if length e = 0 then Inr False
      else errors_Is n h (Some (ErrorVal (e ! 0))) target)"

subsection \<open>Rendering\<close>

definition newline :: string where
  "newline = [CHR 0x0A]"

text \<open>\<^verbatim>\<open>strings.Join\<close>\<close>

fun Join :: "string list \<Rightarrow> string \<Rightarrow> string" where
  "Join [] sep = ''''"
| "Join [x] sep = x"
| "Join (x # y # ys) sep = x @ sep @ Join (y # ys) sep"

fun all_ok :: "(fault + 'a) list \<Rightarrow> fault + 'a list" where
  "all_ok [] = Inr []"
| "all_ok (Inl ft # rs) = Inl ft"
| "all_ok (Inr x # rs) = (case all_ok rs of Inl ft \<Rightarrow> Inl ft | Inr xs \<Rightarrow> Inr (x # xs))"

text \<open>
  \<^verbatim>\<open>Error.Error\<close>, the \<^verbatim>\<open>Error\<close> method of each kind of error value,
  \<^verbatim>\<open>ErrorGroup.Error\<close> and \<^verbatim>\<open>ErrorGroupFormatterDefault\<close>. \<^verbatim>\<open>ErrorGroup.Error\<close> reads
  \<^verbatim>\<open>g.Formatter\<close> and \<^verbatim>\<open>g.Errors\<close> through its receiver without a nil check, and calls
  the formatter whatever it is. The verb \<^verbatim>\<open>%s\<close> on an \<^verbatim>\<open>Error\<close> goes through its
  \<^verbatim>\<open>Format\<close> method to \<^verbatim>\<open>Error()\<close>; \<^verbatim>\<open>fmt\<close> recovers a panic of that method
  and prints \<open>Sprintf_panic\<close> in place of the operand, so in the bulleted list a nil
  dereference or a call of a nil function while an element is rendered becomes text.
  Rendering stores nothing and indexes nothing out of range. Rendering a cause may lead
  through groups on the heap; the first argument bounds the depth of causes, and running
  out of it is no panic that could be recovered.
\<close>

definition Sprintf_panic :: string where
  "Sprintf_panic =
     ''%!s(PANIC=Format method: runtime error: invalid memory address or nil pointer dereference)''"

fun Error_Error :: "nat \<Rightarrow> heap \<Rightarrow> Error \<Rightarrow> fault + string"
and error_Error :: "nat \<Rightarrow> heap \<Rightarrow> error \<Rightarrow> fault + string"
and ErrorGroup_Error :: "nat \<Rightarrow> heap \<Rightarrow> addr option \<Rightarrow> fault + string"
and ErrorGroupFormatterDefault :: "nat \<Rightarrow> heap \<Rightarrow> Error list \<Rightarrow> fault + string" where
  "Error_Error n h e =
     (case Wrapped e of
        None \<Rightarrow> Inr (''['' @ Namespace e @ '':'' @ Code e @ ''] '' @ Message e)
      | Some w \<Rightarrow>
          (case n of
             0 \<Rightarrow> Inl OutOfFuel
           | Suc k \<Rightarrow>
               (case error_Error k h w of
                  Inl ft \<Rightarrow> Inl ft
                | Inr s \<Rightarrow> Inr (''['' @ Namespace e @ '':'' @ Code e @ ''] '' @ Message e @
                                  newline @ ''-> '' @ s))))"
| "error_Error n h (ErrorVal e) = Error_Error n h e"
| "error_Error n h (GroupPtr g) = ErrorGroup_Error n h g"
| "error_Error n h (ChainVal c) =
     (if length c = 0 then Inr '''' else Error_Error n h (c ! 0))"
| "error_Error n h (Foreign i m w) = Inr m"
| "ErrorGroup_Error n h None = Inl NilDereference"
| "ErrorGroup_Error n h (Some a) =
     (case Formatter (groups h a) of
        None \<Rightarrow> Inl NilFuncCall
      | Some FormatterDefault \<Rightarrow> ErrorGroupFormatterDefault n h (elems h a)
      | Some (FormatterCustom f) \<Rightarrow> Inr (f (elems h a)))"
| "ErrorGroupFormatterDefault n h errs =
     (case errs of
        [] \<Rightarrow> Inr ''''
      | [e] \<Rightarrow> Error_Error n h e
      | _ \<Rightarrow>
          (case all_ok (map (\<lambda>err. case Error_Error n h err of
                                     Inl NilDereference \<Rightarrow> Inr (''* '' @ Sprintf_panic)
                                   | Inl NilFuncCall \<Rightarrow> Inr (''* '' @ Sprintf_panic)
                                   | Inl ft \<Rightarrow> Inl ft
                                   | Inr s \<Rightarrow> Inr (''* '' @ s)) errs) of
             Inl ft \<Rightarrow> Inl ft
           | Inr points \<Rightarrow> Inr (newline @ Join points newline @ newline @ newline)))"

subsection \<open>ErrorGroup: Append, NewErrorGroup, Translate\<close>

text \<open>
  Modelled from the spec: \<^verbatim>\<open>SliceTypeAssert\<close>, which \<^verbatim>\<open>errors.go\<close> calls and
  \<^verbatim>\<open>slices.go\<close> does not define. The spec describes it as narrowing each element of a sequence to a target type,
  an element being left out when its narrowing fails, and says that at its one call site,
  from \<^verbatim>\<open>Error\<close> to \<^verbatim>\<open>error\<close>, the narrowing always succeeds. The result is a new
  slice, so \<^verbatim>\<open>Append\<close> holds the elements before it writes any.
\<close>

definition SliceTypeAssert :: "Error list \<Rightarrow> error option list" where
  "SliceTypeAssert input = map (\<lambda>e. Some (ErrorVal e)) input"

text \<open>\<^verbatim>\<open>g.Errors = append(g.Errors, e)\<close>\<close>

definition append_Errors :: "heap \<Rightarrow> addr \<Rightarrow> Error \<Rightarrow> heap" where
  "append_Errors h a e =
     (let (h1, s) = slice_append h (Errors (groups h a)) e
      in h1\<lparr>groups := (groups h1)(a := (groups h1 a)\<lparr>Errors := s\<rparr>)\<rparr>)"

text \<open>
  \<^verbatim>\<open>ErrorGroup.Append\<close>. The loop over \<^verbatim>\<open>errs\<close> is the recursion on the list; the call
  of \<^verbatim>\<open>Append\<close> on the elements of a group found in \<^verbatim>\<open>err\<close> reads them from the heap,
  and the first argument bounds the depth of these calls. A typed nil group pointer found
  by \<^verbatim>\<open>errors.As\<close> is dereferenced by \<^verbatim>\<open>eg.Errors\<close>, a nil receiver by \<^verbatim>\<open>g.Errors\<close>.
\<close>

fun Append :: "nat \<Rightarrow> heap \<Rightarrow> addr option \<Rightarrow> error option list \<Rightarrow> fault + heap" where
  "Append n h g [] = Inr h"
| "Append n h g (None # errs) = Append n h g errs"
| "Append n h g (Some err # errs) =
     (case errors_As_Group (Some err) of
        Some eg \<Rightarrow>
          (case eg of
             None \<Rightarrow> Inl NilDereference
           | Some b \<Rightarrow>
               (case n of
                  0 \<Rightarrow> Inl OutOfFuel
                | Suc k \<Rightarrow>
                    (case Append k h g (SliceTypeAssert (elems h b)) of
                       Inl ft \<Rightarrow> Inl ft
                     | Inr h1 \<Rightarrow> Append n h1 g errs)))
      | None \<Rightarrow>
          (case (case errors_As_Error h (Some err) of
                   Some e \<Rightarrow> Inr e
                 | None \<Rightarrow> Wrap n h ErrUndefined (Some err)) of
             Inl ft \<Rightarrow> Inl ft
           | Inr e \<Rightarrow>
               (if IsZero e then Append n h g errs
                else
                  (case g of
                     None \<Rightarrow> Inl NilDereference
                   | Some a \<Rightarrow> Append n (append_Errors h a e) g errs))))"

text \<open>\<^verbatim>\<open>NewErrorGroup\<close>: a new group object with an empty slice of capacity
  \<^verbatim>\<open>len(errs)\<close> and the default formatter, then \<^verbatim>\<open>Append\<close>.\<close>

definition new_group :: "heap \<Rightarrow> nat \<Rightarrow> heap \<times> addr" where
  "new_group h c =
     (let (h1, s) = slice_make h 0 c
      in (h1\<lparr>groups := (groups h1)(next_addr h1 := \<lparr>Errors = s, Formatter = Some FormatterDefault\<rparr>),
             next_addr := Suc (next_addr h1)\<rparr>,
          next_addr h1))"

definition NewErrorGroup :: "nat \<Rightarrow> heap \<Rightarrow> error option list \<Rightarrow> fault + heap \<times> addr" where
  "NewErrorGroup n h errs =
     (let (h1, eg) = new_group h (length errs)
      in (case Append n h1 (Some eg) errs of
            Inl ft \<Rightarrow> Inl ft
          | Inr h2 \<Rightarrow> Inr (h2, eg)))"

text \<open>
  \<^verbatim>\<open>Error.AsGroup\<close>. The loop goes on with the \<^verbatim>\<open>Error\<close> that \<^verbatim>\<open>errors.As\<close> finds in
  the cause, which may come out of a group on the heap; the first argument bounds the
  number of iterations as well.
\<close>

fun AsGroup_loop :: "nat \<Rightarrow> heap \<Rightarrow> addr \<Rightarrow> Error \<Rightarrow> fault + heap" where
  "AsGroup_loop n h g err =
     (case Wrapped err of
        None \<Rightarrow> Inr h
      | Some w \<Rightarrow>
          (case Append n h (Some g) [Some w] of
             Inl ft \<Rightarrow> Inl ft
           | Inr h1 \<Rightarrow>
               (case errors_As_Error h1 (Some w) of
                  None \<Rightarrow> Inr h1
                | Some we \<Rightarrow>
                    (case n of
                       0 \<Rightarrow> Inl OutOfFuel
                     | Suc k \<Rightarrow> AsGroup_loop k h1 g we))))"

definition AsGroup :: "nat \<Rightarrow> heap \<Rightarrow> Error \<Rightarrow> fault + heap \<times> addr" where
  "AsGroup n h e =
     (case NewErrorGroup n h [Some (ErrorVal e)] of
        Inl ft \<Rightarrow> Inl ft
      | Inr (h1, g) \<Rightarrow>
          (case AsGroup_loop n h1 g e of
             Inl ft \<Rightarrow> Inl ft
           | Inr h2 \<Rightarrow> Inr (h2, g)))"

text \<open>
  \<^verbatim>\<open>ErrorGroup.Translate\<close>. An \<^verbatim>\<open>ErrorTranslate\<close> is a function from the element to
  an error or nil; \<open>None\<close> is the nil function. \<^verbatim>\<open>g.Len()\<close> dereferences the receiver.
\<close>

definition translated :: "nat \<Rightarrow> heap \<Rightarrow> error option \<Rightarrow> fault + Error" where
  "translated n h t =
     (case errors_As_Error h t of
        Some e \<Rightarrow> Inr e
      | None \<Rightarrow> Wrap n h ErrUndefined t)"

function Translate_loop ::
  "nat \<Rightarrow> (Error \<Rightarrow> error option) option \<Rightarrow> heap \<Rightarrow> addr \<Rightarrow> nat \<Rightarrow> fault + heap" where
  "Translate_loop n translate h a i =
     (if i < s_len (Errors (groups h a)) then
        (case translate of
           None \<Rightarrow> Inl NilFuncCall
         | Some fn \<Rightarrow>
             (case translated n h
                     (fn (arrays h (s_base (Errors (groups h a)))
                                   (s_off (Errors (groups h a)) + i))) of
                Inl ft \<Rightarrow> Inl ft
              | Inr e \<Rightarrow>
                  Translate_loop n translate
                    (h\<lparr>arrays := (arrays h)(s_base (Errors (groups h a)) :=
                         (arrays h (s_base (Errors (groups h a))))
                           (s_off (Errors (groups h a)) + i := e))\<rparr>) a (Suc i)))
      else Inr h)"
  by pat_completeness auto
termination
  by (relation "measure (\<lambda>(n, translate, h, a, i). s_len (Errors (groups h a)) - i)") auto

definition Translate ::
  "nat \<Rightarrow> (Error \<Rightarrow> error option) option \<Rightarrow> heap \<Rightarrow> addr option \<Rightarrow> fault + heap" where
  "Translate n translate h g =
     (case g of
        None \<Rightarrow> Inl NilDereference
      | Some a \<Rightarrow> Translate_loop n translate h a 0)"

subsection \<open>Observations and concrete states\<close>

text \<open>An \<^verbatim>\<open>Error\<close> with its cause replaced, as the struct literals of \<^verbatim>\<open>Wrap\<close> and
  \<^verbatim>\<open>Copy\<close> build it.\<close>

definition with_Wrapped :: "Error \<Rightarrow> error option \<Rightarrow> Error" where
  "with_Wrapped e w = Error (Code e) (Extras e) (Flags e) (Message e) (Namespace e) w"

text \<open>The elements of a group after a call that returns a heap, or a heap and a group.\<close>

definition elems_after :: "fault + heap \<Rightarrow> addr \<Rightarrow> fault + Error list" where
  "elems_after r a = (case r of Inl ft \<Rightarrow> Inl ft | Inr h \<Rightarrow> Inr (elems h a))"

definition elems_of_new :: "fault + heap \<times> addr \<Rightarrow> fault + Error list" where
  "elems_of_new r = (case r of Inl ft \<Rightarrow> Inl ft | Inr (h, g) \<Rightarrow> Inr (elems h g))"

definition Wrapped_of :: "fault + Error \<Rightarrow> fault + error option" where
  "Wrapped_of r = (case r of Inl ft \<Rightarrow> Inl ft | Inr e \<Rightarrow> Inr (Wrapped e))"

text \<open>An empty heap, whose runtime doubles the capacity of a slice that grows, and
  some plain errors.\<close>

definition heap0 :: heap where
  "heap0 = \<lparr>groups = (\<lambda>_. \<lparr>Errors = nil_slice, Formatter = None\<rparr>),
            arrays = (\<lambda>_ _. zero_Error), next_addr = 1, growslice = (\<lambda>n. 2 * n)\<rparr>"

definition errA :: Error where
  "errA = Error ''a'' zero_Extras 0 ''first'' ''app'' None"

definition errB :: Error where
  "errB = Error ''b'' zero_Extras 0 ''second'' ''app'' None"

definition errC :: Error where
  "errC = Error ''c'' zero_Extras 0 ''third'' ''app'' None"

definition errX :: Error where
  "errX = Error ''x'' zero_Extras 0 ''inner one'' ''app'' None"


text \<open>The value of \<^verbatim>\<open>errors.New("boom")\<close>, and of \<^verbatim>\<open>fmt.Errorf("ctx: %w", errA)\<close>.\<close>

definition boom :: error where
  "boom = Foreign 100 ''boom'' None"

definition ctxA :: error where
  "ctxA = Foreign 101 ''ctx: [app:a] first'' (Some (ErrorVal errA))"

text \<open>A group at address \<open>a\<close> whose slice is the whole of the array at \<open>b\<close>.\<close>

definition put_group :: "addr \<Rightarrow> addr \<Rightarrow> Error list \<Rightarrow> heap \<Rightarrow> heap" where
  "put_group a b es h =
     h\<lparr>groups := (groups h)(a := \<lparr>Errors = \<lparr>s_base = b, s_off = 0, s_len = length es,
                                              s_cap = length es\<rparr>,
                                   Formatter = Some FormatterDefault\<rparr>),
       arrays := (arrays h)(b := (\<lambda>k. if k < length es then es ! k else zero_Error)),
       next_addr := max (next_addr h) (Suc (max a b))\<rparr>"

text \<open>Group 1 holds \<open>[errC]\<close> and group 2 holds \<open>[errA, errB]\<close>.\<close>

definition heap_cab :: heap where
  "heap_cab = put_group 2 4 [errA, errB] (put_group 1 3 [errC] heap0)"


text \<open>Group 1 holds no element, as \<^verbatim>\<open>NewErrorGroup()\<close> leaves it.\<close>

definition heap_empty_group :: heap where
  "heap_empty_group = put_group 1 2 [] heap0"

text \<open>Whether the dynamic type of an error value is \<^verbatim>\<open>Error\<close>.\<close>

fun is_Error :: "error \<Rightarrow> bool" where
  "is_Error (ErrorVal e) = True"
| "is_Error (GroupPtr g) = False"
| "is_Error (ChainVal c) = False"
| "is_Error (Foreign i m w) = False"

text \<open>
  The wrap chain of an \<^verbatim>\<open>Error\<close> in the words of the specification: \<open>spec_links\<close> are
  the \<^verbatim>\<open>Error\<close> values met by following \<^verbatim>\<open>Wrapped\<close> while it is itself an
  \<^verbatim>\<open>Error\<close>, root first; \<open>spec_terminal\<close> is the first cause that is not, or nil.
\<close>

fun spec_links :: "Error \<Rightarrow> Error list" where
  "spec_links (Error c x f m n (Some (ErrorVal e))) =
     Error c x f m n (Some (ErrorVal e)) # spec_links e"
| "spec_links e = [e]"

fun spec_terminal :: "Error \<Rightarrow> error option" where
  "spec_terminal (Error c x f m n (Some (ErrorVal e))) = spec_terminal e"
| "spec_terminal e = Wrapped e"

text \<open>The contents of a slice after a call that returns a heap.\<close>

definition read_after :: "fault + heap \<Rightarrow> slice \<Rightarrow> fault + Error list" where
  "read_after r s = (case r of Inl ft \<Rightarrow> Inl ft | Inr h \<Rightarrow> Inr (slice_read h s))"

text \<open>The value of \<^verbatim>\<open>fmt.Errorf("ctx: %w", errX)\<close>.\<close>

definition ctxX :: error where
  "ctxX = Foreign 102 ''ctx: [app:x] inner one'' (Some (ErrorVal errX))"

text \<open>Three translations: to a wrapper around \<open>errA\<close>, to a plain foreign error, and
  one that answers a wrapper around \<open>errX\<close> for \<open>errA\<close> and, for the rest, a pointer to
  the group at address 9, which holds no element in the heaps below.\<close>

definition translate_to_ctxA :: "Error \<Rightarrow> error option" where
  "translate_to_ctxA e = Some ctxA"

definition translate_to_boom :: "Error \<Rightarrow> error option" where
  "translate_to_boom e = Some boom"

definition translate_mixed :: "Error \<Rightarrow> error option" where
  "translate_mixed e = (if Code e = ''a'' then Some ctxX else Some (GroupPtr (Some 9)))"

text \<open>\<open>errA\<close> wrapping the foreign error, and \<open>errA\<close> wrapping \<open>errB\<close> wrapping it.\<close>

definition errA_boom :: Error where
  "errA_boom = with_Wrapped errA (Some boom)"

definition errA_errB_boom :: Error where
  "errA_errB_boom = with_Wrapped errA (Some (ErrorVal (with_Wrapped errB (Some boom))))"

text \<open>
  The heap \<open>h\<close> with the elements of the group at \<open>a\<close> at the indices from \<open>i\<close> up to,
  not including, \<open>j\<close> taken from the heap \<open>h'\<close>. When \<open>h'\<close> is the heap that
  \<^verbatim>\<open>Translate\<close> returns, \<open>heap_between h h' a 0 j\<close> is the heap as it stands when the
  loop reaches index \<open>j\<close>: the elements before \<open>j\<close> are translated, the others are not.
\<close>

definition heap_between :: "heap \<Rightarrow> heap \<Rightarrow> addr \<Rightarrow> nat \<Rightarrow> nat \<Rightarrow> heap" where
  "heap_between h h' a i j =
     h\<lparr>arrays := (arrays h)(s_base (Errors (groups h a)) :=
          (\<lambda>k. if s_off (Errors (groups h a)) + i \<le> k \<and> k < s_off (Errors (groups h a)) + j
               then arrays h' (s_base (Errors (groups h a))) k
               else arrays h (s_base (Errors (groups h a))) k))\<rparr>"

section \<open>Properties\<close>

declare Translate_loop.simps [simp del]
declare Copy.simps [simp del]
declare AsGroup_loop.simps [simp del]

subsection \<open>Basic facts\<close>

text \<open>\<^verbatim>\<open>IsZero\<close> compares an \<^verbatim>\<open>Error\<close> with a pointer, so it is never true.\<close>

lemma IsZero_False [simp]: "IsZero e = False"
  by (simp add: IsZero_def DeepEqual_def new_Error_def)

lemma Wrap_Some [simp]: "Wrap n h e (Some w) = Inr (with_Wrapped e (Some w))"
  by (simp add: Wrap_def with_Wrapped_def)

lemma Wrap_None [simp]: "Wrap n h e None = Inr e"
  by (simp add: Wrap_def)

lemma with_Wrapped_sel [simp]:
  "Code (with_Wrapped e w) = Code e" "Extras (with_Wrapped e w) = Extras e"
  "Flags (with_Wrapped e w) = Flags e" "Message (with_Wrapped e w) = Message e"
  "Namespace (with_Wrapped e w) = Namespace e" "Wrapped (with_Wrapped e w) = w"
  by (simp_all add: with_Wrapped_def)

lemma with_Wrapped_twice [simp]: "with_Wrapped (with_Wrapped e v) w = with_Wrapped e w"
  by (simp add: with_Wrapped_def)

lemma errors_As_Error_simps [simp]:
  "errors_As_Error h None = None" "errors_As_Error h (Some w) = as_Error h w"
  by (simp_all add: errors_As_Error_def)

lemma errors_As_Group_simps [simp]:
  "errors_As_Group None = None" "errors_As_Group (Some w) = as_Group w"
  by (simp_all add: errors_As_Group_def)

lemma length_elems [simp]: "length (elems h a) = s_len (Errors (groups h a))"
  by (simp add: elems_def slice_read_def)

lemma elems_Nil_iff: "elems h a = [] \<longleftrightarrow> s_len (Errors (groups h a)) = 0"
  by (auto simp: elems_def slice_read_def)

subsection \<open>Wrap and Equal\<close>

text \<open>
  C4. \<^verbatim>\<open>e.Wrap(nil)\<close> is \<^verbatim>\<open>e\<close>, and \<^verbatim>\<open>e.Wrap(err).Unwrap()\<close> is the very value
  \<^verbatim>\<open>err\<close> for a non-nil \<^verbatim>\<open>err\<close>. The code gives this for every receiver, the
  zero value included, since \<^verbatim>\<open>IsZero\<close> never holds; so it holds for every non-zero one.
\<close>

theorem Wrap_Unwrap_is_cause:
  "Wrap n h e None = Inr e \<and>
   (\<exists>e'. Wrap n h e (Some err) = Inr e' \<and> Unwrap e' = Some err)"
  by (simp add: Unwrap_def)

text \<open>
  C10. \<^verbatim>\<open>Equal\<close> does not look at the cause or at the tags:
  \<^verbatim>\<open>e.Wrap(err).Equal(e)\<close> and \<^verbatim>\<open>e.WithTag(tags...).Equal(e)\<close> hold for every
  \<^verbatim>\<open>e\<close>, every non-nil \<^verbatim>\<open>err\<close> and all tags.
\<close>

theorem Equal_ignores_cause_and_tags:
  "(\<exists>e'. Wrap n h e (Some err) = Inr e' \<and> Equal e' e) \<and> Equal (WithTag e tags) e"
  by (simp add: Equal_def DeepEqual_def WithTag_def Extras_WithTag_def)

text \<open>
  C3. The code at a zero receiver and a cause that is an \<^verbatim>\<open>Error\<close>:
  \<^verbatim>\<open>Error{}.Wrap(ErrUndefined)\<close>. \<^verbatim>\<open>IsZero\<close> answers false for the zero value,
  \<^verbatim>\<open>errors.As\<close> would find \<^verbatim>\<open>ErrUndefined\<close> in the cause, and \<^verbatim>\<open>Wrap\<close> returns
  the zero identity wrapping the cause, which is not \<^verbatim>\<open>Equal\<close> to \<^verbatim>\<open>ErrUndefined\<close>.
\<close>

theorem Wrap_zero_receiver_does_not_adopt:
  "IsZero zero_Error = False \<and>
   errors_As_Error heap0 (Some (ErrorVal ErrUndefined)) = Some ErrUndefined \<and>
   Wrap 1 heap0 zero_Error (Some (ErrorVal ErrUndefined))
     = Inr (Error '''' zero_Extras 0 '''' '''' (Some (ErrorVal ErrUndefined))) \<and>
   Equal (Error '''' zero_Extras 0 '''' '''' (Some (ErrorVal ErrUndefined))) ErrUndefined = False"
  by (simp add: with_Wrapped_def zero_Error_def Equal_def ErrUndefined_def)

subsection \<open>Copy\<close>

text \<open>
  C5 as stated fails: the cause \<^verbatim>\<open>fmt.Errorf("ctx: %w", errA)\<close> is not itself an
  \<^verbatim>\<open>Error\<close>, yet \<^verbatim>\<open>Copy\<close> replaces it by (a copy of) the \<^verbatim>\<open>Error\<close> inside it.
\<close>

theorem Copy_replaces_wrapper_cause:
  "Wrapped (with_Wrapped errB (Some ctxA)) = Some ctxA \<and>
   is_Error ctxA = False \<and>
   Wrapped_of (Copy 1 heap0 (with_Wrapped errB (Some ctxA))) = Inr (Some (ErrorVal errA)) \<and>
   Some (ErrorVal errA) \<noteq> Some ctxA"
  by (simp add: ctxA_def errA_def Wrapped_of_def Copy.simps)

text \<open>
  C5, amended. For an \<^verbatim>\<open>Error\<close> with a cause \<open>w\<close>: when \<^verbatim>\<open>errors.As\<close> finds no
  \<^verbatim>\<open>Error\<close> in \<open>w\<close>, \<^verbatim>\<open>Copy\<close> returns the receiver's fields with the same cause
  \<open>w\<close>; when it finds one, the cause of the result is the copy of that \<^verbatim>\<open>Error\<close>.
\<close>

theorem Copy_cause:
  assumes "Wrapped e = Some w"
  shows "(as_Error h w = None \<longrightarrow> Copy n h e = Inr (with_Wrapped e (Some w))) \<and>
         (\<forall>x. as_Error h w = Some x \<longrightarrow>
            Copy (Suc n) h e =
              (case Copy n h x of
                 Inl ft \<Rightarrow> Inl ft
               | Inr c \<Rightarrow> Inr (with_Wrapped e (Some (ErrorVal c)))))"
proof (intro conjI allI impI)
  assume "as_Error h w = None"
  with assms show "Copy n h e = Inr (with_Wrapped e (Some w))"
    by (subst Copy.simps) (simp add: with_Wrapped_def)
next
  fix x assume "as_Error h w = Some x"
  with assms show "Copy (Suc n) h e =
      (case Copy n h x of Inl ft \<Rightarrow> Inl ft | Inr c \<Rightarrow> Inr (with_Wrapped e (Some (ErrorVal c))))"
    by (subst Copy.simps) (simp add: with_Wrapped_def split: sum.split)
qed

theorem Copy_cause_witness:
  "Wrapped (with_Wrapped errB (Some boom)) = Some boom \<and>
   as_Error heap0 boom = None \<and>
   Copy 0 heap0 (with_Wrapped errB (Some boom)) = Inr (with_Wrapped errB (Some boom)) \<and>
   Wrapped (with_Wrapped errB (Some ctxA)) = Some ctxA \<and>
   as_Error heap0 ctxA = Some errA \<and>
   Copy 1 heap0 (with_Wrapped errB (Some ctxA))
     = Inr (with_Wrapped errB (Some (ErrorVal errA)))"
proof -
  have b: "Wrapped (with_Wrapped errB (Some boom)) = Some boom" by simp
  have c: "Wrapped (with_Wrapped errB (Some ctxA)) = Some ctxA" by simp
  have nb: "as_Error heap0 boom = None" by (simp add: boom_def)
  have sc: "as_Error heap0 ctxA = Some errA" by (simp add: ctxA_def)
  have cp: "Copy 0 heap0 errA = Inr errA" by (simp add: errA_def Copy.simps)
  show ?thesis
    using Copy_cause [OF b, of heap0 0] Copy_cause [OF c, of heap0 0] nb sc cp b c
    by simp
qed

subsection \<open>Slices\<close>

lemma slice_read_append:
  assumes "slice_append h s v = (h1, s1)"
  shows "slice_read h1 s1 = slice_read h s @ [v]"
proof (cases "s_len s < s_cap s")
  case True
  with assms
  have h1: "h1 = h\<lparr>arrays := (arrays h)(s_base s := (arrays h (s_base s))(s_off s + s_len s := v))\<rparr>"
    and s1: "s1 = s\<lparr>s_len := Suc (s_len s)\<rparr>"
    by (auto simp: slice_append_def)
  show ?thesis by (simp add: h1 s1 slice_read_def)
next
  case False
  with assms
  have h1: "arrays h1 (next_addr h) =
      (\<lambda>k. if k < length (slice_read h s @ [v]) then (slice_read h s @ [v]) ! k else zero_Error)"
    and s1: "s1 = \<lparr>s_base = next_addr h, s_off = 0, s_len = Suc (s_len s),
                     s_cap = max (Suc (s_len s)) (growslice h (Suc (s_len s)))\<rparr>"
    by (auto simp: slice_append_def Let_def)
  have len: "length (slice_read h s @ [v]) = Suc (s_len s)"
    by (simp add: slice_read_def)
  have "slice_read h1 s1 = map (arrays h1 (next_addr h)) [0..<Suc (s_len s)]"
    by (simp only: slice_read_def s1 slice.simps add_0)
  also have "\<dots> = map (\<lambda>k. (slice_read h s @ [v]) ! k) [0..<length (slice_read h s @ [v])]"
    unfolding h1 len by (rule map_cong) auto
  finally show ?thesis by (simp only: map_nth)
qed

lemma elems_append_Errors: "elems (append_Errors h a e) a = elems h a @ [e]"
proof -
  obtain h1 s1 where sa: "slice_append h (Errors (groups h a)) e = (h1, s1)"
    by (cases "slice_append h (Errors (groups h a)) e")
  have "elems (append_Errors h a e) a = slice_read h1 s1"
    by (simp add: elems_def append_Errors_def sa slice_read_def)
  with slice_read_append [OF sa] show ?thesis by (simp add: elems_def)
qed

subsection \<open>The empty group\<close>

text \<open>C2 as stated fails at the nil group reference: \<^verbatim>\<open>Error()\<close> dereferences its
  receiver to read \<^verbatim>\<open>g.Formatter\<close>.\<close>

theorem Error_of_nil_group_panics:
  "ErrorGroup_Error 1 heap0 None = Inl NilDereference"
  by simp

text \<open>
  C2, amended. \<^verbatim>\<open>ErrorOrNil()\<close> is nil and \<^verbatim>\<open>Empty()\<close> is true for a nil group
  reference and for a group with no element; \<^verbatim>\<open>Error()\<close> is the empty string for a
  group with no element whose formatter is the default one, and faults on a nil reference.
\<close>

theorem empty_group:
  "ErrorOrNil h None = None \<and> Empty h None \<and>
   ErrorGroup_Error n h None = Inl NilDereference \<and>
   (elems h a = [] \<longrightarrow>
      ErrorOrNil h (Some a) = None \<and> Empty h (Some a) \<and>
      (Formatter (groups h a) = Some FormatterDefault \<longrightarrow>
         ErrorGroup_Error n h (Some a) = Inr ''''))"
proof -
  have "ErrorOrNil h (Some a) = None \<and> Empty h (Some a)" if "elems h a = []"
    using that by (simp add: ErrorOrNil_def Empty_def elems_Nil_iff)
  moreover have "ErrorGroup_Error n h (Some a) = Inr ''''"
    if "elems h a = []" "Formatter (groups h a) = Some FormatterDefault"
    using that by simp
  ultimately show ?thesis
    by (simp add: ErrorOrNil_def Empty_def)
qed

theorem empty_group_witness:
  "elems heap_empty_group 1 = [] \<and>
   Formatter (groups heap_empty_group 1) = Some FormatterDefault \<and>
   ErrorOrNil heap_empty_group (Some 1) = None \<and> Empty heap_empty_group (Some 1) \<and>
   ErrorGroup_Error 0 heap_empty_group (Some 1) = Inr ''''"
proof -
  have e: "elems heap_empty_group 1 = []"
    by (simp add: heap_empty_group_def put_group_def elems_def slice_read_def)
  have f: "Formatter (groups heap_empty_group 1) = Some FormatterDefault"
    by (simp add: heap_empty_group_def put_group_def)
  show ?thesis using empty_group [of heap_empty_group 0 1] e f by simp
qed

subsection \<open>errorChain\<close>

text \<open>
  C8. The chain over \<open>[a, b]\<close> unwraps to the chain over \<open>[b]\<close>, which unwraps to nil;
  \<^verbatim>\<open>errorChain.Is\<close> is false for the empty chain and otherwise is \<^verbatim>\<open>errors.Is\<close> of
  element 0, whatever the later elements are.
\<close>

theorem errorChain_steps:
  "chain_Unwrap [a, b] = Some (ChainVal [b]) \<and>
   chain_Unwrap [b] = None \<and>
   chain_Is n h [] t = Inr False \<and>
   chain_Is n h (x # rest) t = errors_Is n h (Some (ErrorVal x)) t \<and>
   chain_Is n h (x # rest) t = chain_Is n h [x] t"
  by (simp add: chain_Unwrap_def)

subsection \<open>Append\<close>





subsection \<open>Translate\<close>

lemma as_Error_heap_indep: "as_Group t = None \<Longrightarrow> as_Error h t = as_Error h' t"
  by (induction h t rule: as_Error.induct) simp_all

lemma translated_eq:
  "translated n h t =
     Inr (case errors_As_Error h t of Some e \<Rightarrow> e | None \<Rightarrow> with_Wrapped ErrUndefined t)"
  by (cases t) (simp_all add: translated_def with_Wrapped_def ErrUndefined_def split: option.split)

lemma heap_between_empty [simp]: "heap_between h h' a i i = h"
proof -
  let ?s = "Errors (groups h a)"
  have "(\<lambda>k. if s_off ?s + i \<le> k \<and> k < s_off ?s + i
             then arrays h' (s_base ?s) k else arrays h (s_base ?s) k)
        = arrays h (s_base ?s)"
    by (rule ext) auto
  then show ?thesis by (simp add: heap_between_def)
qed

lemma groups_heap_between [simp]: "groups (heap_between h h' a i j) = groups h"
  by (simp add: heap_between_def)

lemma heap_between_step:
  assumes "i < j"
    and "arrays h' (s_base (Errors (groups h a))) (s_off (Errors (groups h a)) + i) = e"
  shows "heap_between
           (h\<lparr>arrays := (arrays h)(s_base (Errors (groups h a)) :=
                (arrays h (s_base (Errors (groups h a))))(s_off (Errors (groups h a)) + i := e))\<rparr>)
           h' a (Suc i) j
         = heap_between h h' a i j"
  using assms by (auto simp: heap_between_def fun_eq_iff intro!: arg_cong [where f = "\<lambda>x. h\<lparr>arrays := x\<rparr>"])

lemma Translate_loop_result:
  "\<exists>h'. Translate_loop n (Some fn) h a i = Inr h' \<and>
     groups h' = groups h \<and>
     (\<forall>b. b \<noteq> s_base (Errors (groups h a)) \<longrightarrow> arrays h' b = arrays h b) \<and>
     (\<forall>k. k < s_off (Errors (groups h a)) + i \<or>
          s_off (Errors (groups h a)) + s_len (Errors (groups h a)) \<le> k \<longrightarrow>
        arrays h' (s_base (Errors (groups h a))) k = arrays h (s_base (Errors (groups h a))) k) \<and>
     (\<forall>j. i \<le> j \<and> j < s_len (Errors (groups h a)) \<longrightarrow>
        Inr (arrays h' (s_base (Errors (groups h a))) (s_off (Errors (groups h a)) + j))
          = translated n (heap_between h h' a i j)
              (fn (arrays h (s_base (Errors (groups h a))) (s_off (Errors (groups h a)) + j))))"
proof (induction n "Some fn" h a i rule: Translate_loop.induct)
  case (1 n h a i)
  let ?s = "Errors (groups h a)"
  show ?case
  proof (cases "i < s_len ?s")
    case False
    then show ?thesis by (subst Translate_loop.simps) auto
  next
    case True
    obtain e where e: "translated n h (fn (arrays h (s_base ?s) (s_off ?s + i))) = Inr e"
      by (simp add: translated_eq)
    let ?h1 = "h\<lparr>arrays := (arrays h)(s_base ?s := (arrays h (s_base ?s))(s_off ?s + i := e))\<rparr>"
    have g1: "groups ?h1 = groups h" by simp
    from "1.hyps" [OF True refl e] g1 obtain h' where
      r: "Translate_loop n (Some fn) ?h1 a (Suc i) = Inr h'"
      and g: "groups h' = groups h"
      and fr: "\<forall>b. b \<noteq> s_base ?s \<longrightarrow> arrays h' b = arrays ?h1 b"
      and lo: "\<forall>k. k < s_off ?s + Suc i \<or> s_off ?s + s_len ?s \<le> k \<longrightarrow>
                  arrays h' (s_base ?s) k = arrays ?h1 (s_base ?s) k"
      and hi: "\<forall>j. Suc i \<le> j \<and> j < s_len ?s \<longrightarrow>
        Inr (arrays h' (s_base ?s) (s_off ?s + j))
          = translated n (heap_between ?h1 h' a (Suc i) j)
              (fn (arrays ?h1 (s_base ?s) (s_off ?s + j)))"
      by auto
    have res: "Translate_loop n (Some fn) h a i = Inr h'"
      by (subst Translate_loop.simps) (simp add: True e r)
    have at_i: "arrays h' (s_base ?s) (s_off ?s + i) = e"
      using lo by simp
    have p3: "\<forall>k. k < s_off ?s + i \<or> s_off ?s + s_len ?s \<le> k \<longrightarrow>
        arrays h' (s_base ?s) k = arrays h (s_base ?s) k"
      using lo True by auto
    have p4: "Inr (arrays h' (s_base ?s) (s_off ?s + j))
          = translated n (heap_between h h' a i j) (fn (arrays h (s_base ?s) (s_off ?s + j)))"
      if "i \<le> j \<and> j < s_len ?s" for j
    proof (cases "j = i")
      case True
      with at_i e show ?thesis by simp
    next
      case False
      with that have j: "Suc i \<le> j \<and> j < s_len ?s" and ij: "i < j" by simp_all
      from hi j have "Inr (arrays h' (s_base ?s) (s_off ?s + j))
          = translated n (heap_between ?h1 h' a (Suc i) j)
              (fn (arrays ?h1 (s_base ?s) (s_off ?s + j)))" by blast
      moreover have "arrays ?h1 (s_base ?s) (s_off ?s + j) = arrays h (s_base ?s) (s_off ?s + j)"
        using False by simp
      ultimately show ?thesis
        by (simp only: heap_between_step [OF ij at_i])
    qed
    show ?thesis
      using res g fr p3 p4 by auto
  qed
qed

lemma as_Error_GroupPtr_None_iff:
  "as_Error h (GroupPtr g) = None \<longleftrightarrow>
     (case g of None \<Rightarrow> True | Some b \<Rightarrow> s_len (Errors (groups h b)) = 0)"
  by (cases g)
     (auto simp: ErrorGroup_Unwrap_def chain_As_Error_def split_def Unwrap_errs_def
        slice_make_def slice_read_def Let_def)

lemma as_Error_None_groups:
  "groups h1 = groups h2 \<Longrightarrow> as_Error h1 t = None \<longleftrightarrow> as_Error h2 t = None"
proof (induction h1 t rule: as_Error.induct)
  case (2 h g)
  then show ?case unfolding as_Error_GroupPtr_None_iff by (simp split: option.split)
qed simp_all

lemma elems_nth:
  "j < s_len (Errors (groups h a)) \<Longrightarrow>
   elems h a ! j = arrays h (s_base (Errors (groups h a))) (s_off (Errors (groups h a)) + j)"
  by (simp add: elems_def slice_read_def)

lemma errors_As_Error_None_groups:
  "groups h1 = groups h2 \<Longrightarrow> errors_As_Error h1 t = None \<longleftrightarrow> errors_As_Error h2 t = None"
proof (cases t)
  case None
  then show ?thesis by simp
next
  case (Some w)
  assume "groups h1 = groups h2"
  from as_Error_None_groups [OF this, of w] Some show ?thesis by simp
qed

text \<open>
  C9, amended. \<^verbatim>\<open>Translate\<close> with a translation function returns and the group has as
  many elements as before. The element at each index \<open>j\<close> is the translation of the
  element that was at \<open>j\<close>: the \<^verbatim>\<open>Error\<close> that \<^verbatim>\<open>errors.As\<close> finds in the function's
  answer, in the heap as it stands when the loop reaches \<open>j\<close>, and \<^verbatim>\<open>ErrUndefined\<close>
  with the answer as its cause when it finds none (for a nil answer, \<^verbatim>\<open>ErrUndefined\<close>
  itself). Whether \<^verbatim>\<open>errors.As\<close> finds an \<^verbatim>\<open>Error\<close> does not depend on the elements
  translated before, so an answer in which it finds none in the heap of the call is
  wrapped under \<^verbatim>\<open>ErrUndefined\<close>; and where it finds \<open>x\<close> in an answer from which no
  group can be reached, the element becomes \<open>x\<close>.
\<close>

theorem Translate_keeps_length_and_order:
  "\<exists>h'. Translate n (Some fn) h (Some a) = Inr h' \<and>
     length (elems h' a) = length (elems h a) \<and>
     (\<forall>j < length (elems h a).
        elems h' a ! j =
          (case errors_As_Error (heap_between h h' a 0 j) (fn (elems h a ! j)) of
             Some e \<Rightarrow> e
           | None \<Rightarrow> with_Wrapped ErrUndefined (fn (elems h a ! j))) \<and>
        (errors_As_Error h (fn (elems h a ! j)) = None \<longrightarrow>
           elems h' a ! j = with_Wrapped ErrUndefined (fn (elems h a ! j))) \<and>
        (\<forall>w x. fn (elems h a ! j) = Some w \<and> as_Group w = None \<and> as_Error h w = Some x \<longrightarrow>
           elems h' a ! j = x))"
proof -
  let ?s = "Errors (groups h a)"
  from Translate_loop_result [of n fn h a 0] obtain h' where
    r: "Translate_loop n (Some fn) h a 0 = Inr h'"
    and g: "groups h' = groups h"
    and el: "\<forall>j. j < s_len ?s \<longrightarrow>
        Inr (arrays h' (s_base ?s) (s_off ?s + j))
          = translated n (heap_between h h' a 0 j) (fn (arrays h (s_base ?s) (s_off ?s + j)))"
    by auto
  have nth: "elems h' a ! j =
      (case errors_As_Error (heap_between h h' a 0 j) (fn (elems h a ! j)) of
         Some e \<Rightarrow> e | None \<Rightarrow> with_Wrapped ErrUndefined (fn (elems h a ! j)))"
    if "j < s_len ?s" for j
  proof -
    have a1: "elems h a ! j = arrays h (s_base ?s) (s_off ?s + j)"
      using that by (rule elems_nth)
    have a2: "elems h' a ! j = arrays h' (s_base ?s) (s_off ?s + j)"
      using that elems_nth [of j h' a] by (simp add: g)
    from el that have
      "Inr (arrays h' (s_base ?s) (s_off ?s + j))
         = translated n (heap_between h h' a 0 j) (fn (arrays h (s_base ?s) (s_off ?s + j)))"
      by blast
    then have "arrays h' (s_base ?s) (s_off ?s + j) =
      (case errors_As_Error (heap_between h h' a 0 j)
              (fn (arrays h (s_base ?s) (s_off ?s + j))) of
         Some e \<Rightarrow> e
       | None \<Rightarrow> with_Wrapped ErrUndefined (fn (arrays h (s_base ?s) (s_off ?s + j))))"
      by (simp add: translated_eq)
    then show ?thesis unfolding a1 a2 .
  qed
  have none: "elems h' a ! j = with_Wrapped ErrUndefined (fn (elems h a ! j))"
    if "j < s_len ?s" and "errors_As_Error h (fn (elems h a ! j)) = None" for j
  proof -
    from that(2) errors_As_Error_None_groups [of "heap_between h h' a 0 j" h "fn (elems h a ! j)"]
    have "errors_As_Error (heap_between h h' a 0 j) (fn (elems h a ! j)) = None"
      by simp
    with nth [OF that(1)] show ?thesis by simp
  qed
  have some: "elems h' a ! j = x"
    if "j < s_len ?s" and "fn (elems h a ! j) = Some w" and "as_Group w = None"
      and "as_Error h w = Some x" for j w x
  proof -
    from as_Error_heap_indep [OF that(3), of "heap_between h h' a 0 j" h] that(4)
    have "as_Error (heap_between h h' a 0 j) w = Some x" by simp
    with nth [OF that(1)] that(2) show ?thesis by simp
  qed
  from nth none some show ?thesis
    using r g by (simp add: Translate_def)
qed

theorem Translate_keeps_length_and_order_witness:
  "elems heap_cab 2 = [errA, errB] \<and>
   translate_mixed errA = Some ctxX \<and> as_Group ctxX = None \<and>
   as_Error heap_cab ctxX = Some errX \<and>
   translate_mixed errB = Some (GroupPtr (Some 9)) \<and>
   errors_As_Error heap_cab (Some (GroupPtr (Some 9))) = None \<and>
   elems_after (Translate 0 (Some translate_mixed) heap_cab (Some 2)) 2
     = Inr [errX, with_Wrapped ErrUndefined (Some (GroupPtr (Some 9)))]"
proof -
  have ab: "elems heap_cab 2 = [errA, errB]" by code_simp
  have fa: "translate_mixed errA = Some ctxX" by code_simp
  have ga: "as_Group ctxX = None" by code_simp
  have xa: "as_Error heap_cab ctxX = Some errX" by code_simp
  have fb: "translate_mixed errB = Some (GroupPtr (Some 9))" by code_simp
  have nb: "errors_As_Error heap_cab (Some (GroupPtr (Some 9))) = None" by code_simp
  from Translate_keeps_length_and_order [of 0 translate_mixed heap_cab 2] obtain h' where
    r: "Translate 0 (Some translate_mixed) heap_cab (Some 2) = Inr h'"
    and l: "length (elems h' 2) = length (elems heap_cab 2)"
    and el: "\<forall>j < length (elems heap_cab 2).
        (errors_As_Error heap_cab (translate_mixed (elems heap_cab 2 ! j)) = None \<longrightarrow>
           elems h' 2 ! j = with_Wrapped ErrUndefined (translate_mixed (elems heap_cab 2 ! j))) \<and>
        (\<forall>w x. translate_mixed (elems heap_cab 2 ! j) = Some w \<and> as_Group w = None \<and>
               as_Error heap_cab w = Some x \<longrightarrow> elems h' 2 ! j = x)"
    by blast
  from el [rule_format, of 0] ab fa ga xa have e0: "elems h' 2 ! 0 = errX"
    by (simp del: length_elems)
  from el [rule_format, of 1] ab fb nb
  have e1: "elems h' 2 ! 1 = with_Wrapped ErrUndefined (Some (GroupPtr (Some 9)))"
    by (simp del: length_elems)
  from l ab have "length (elems h' 2) = 2" by (simp del: length_elems)
  with e0 e1 have "elems h' 2 = [errX, with_Wrapped ErrUndefined (Some (GroupPtr (Some 9)))]"
    by (cases "elems h' 2"; cases "tl (elems h' 2)") auto
  with r ab fa ga xa fb nb show ?thesis by (simp add: elems_after_def)
qed

text \<open>
  C9 as stated fails: \<^verbatim>\<open>fmt.Errorf("ctx: %w", errA)\<close> is not an \<^verbatim>\<open>Error\<close>, yet
  translating every element to it leaves the group with \<open>errA\<close> at every index, not with
  an element wrapped under \<^verbatim>\<open>ErrUndefined\<close>.
\<close>

theorem Translate_unwraps_wrapper_result:
  "is_Error ctxA = False \<and>
   elems heap_cab 2 = [errA, errB] \<and>
   elems_after (Translate 0 (Some translate_to_ctxA) heap_cab (Some 2)) 2 = Inr [errA, errA] \<and>
   Code errA \<noteq> Code ErrUndefined \<and> Wrapped errA = None"
  by code_simp

subsection \<open>ErrorGroup.Unwrap\<close>

lemma Unwrap_errs_facts:
  assumes "s_base (Errors (groups h a)) < next_addr h"
  shows "groups (fst (Unwrap_errs h a)) = groups h"
    and "s_base (snd (Unwrap_errs h a)) = next_addr h"
    and "next_addr (fst (Unwrap_errs h a)) = Suc (next_addr h)"
    and "\<And>b. b \<noteq> next_addr h \<Longrightarrow> arrays (fst (Unwrap_errs h a)) b = arrays h b"
    and "slice_read (fst (Unwrap_errs h a)) (snd (Unwrap_errs h a)) = elems h a"
proof -
  let ?s = "Errors (groups h a)"
  let ?h1 = "fst (slice_make h (s_len ?s) (s_len ?s))"
  let ?errs = "snd (slice_make h (s_len ?s) (s_len ?s))"
  have u: "Unwrap_errs h a = (slice_copy ?h1 ?errs (Errors (groups ?h1 a)), ?errs)"
    by (simp add: Unwrap_errs_def split_def Let_def)
  have g1: "groups ?h1 = groups h" by (simp add: slice_make_def)
  have src: "slice_read ?h1 ?s = elems h a"
    using assms by (simp add: slice_read_def elems_def slice_make_def)
  show "groups (fst (Unwrap_errs h a)) = groups h"
    by (simp add: u slice_copy_def Let_def slice_make_def)
  show "s_base (snd (Unwrap_errs h a)) = next_addr h"
    by (simp add: u slice_make_def)
  show "next_addr (fst (Unwrap_errs h a)) = Suc (next_addr h)"
    by (simp add: u slice_copy_def Let_def slice_make_def)
  show "arrays (fst (Unwrap_errs h a)) b = arrays h b" if "b \<noteq> next_addr h" for b
    using that by (simp add: u slice_copy_def Let_def slice_make_def)
  have e1: "s_off ?errs = 0" "s_len ?errs = s_len ?s"
    by (simp_all add: slice_make_def)
  have cp: "arrays (slice_copy ?h1 ?errs ?s) (s_base ?errs) k = elems h a ! k"
    if "k < s_len ?s" for k
    using that by (simp add: slice_copy_def Let_def src e1)
  have "slice_read (slice_copy ?h1 ?errs ?s) ?errs
        = map (\<lambda>k. elems h a ! k) [0..<length (elems h a)]"
    unfolding slice_read_def [of "slice_copy ?h1 ?errs ?s"] e1
    by (rule map_cong) (simp_all add: cp)
  then show "slice_read (fst (Unwrap_errs h a)) (snd (Unwrap_errs h a)) = elems h a"
    by (simp only: map_nth u fst_conv snd_conv g1)
qed

lemma slice_read_cong:
  "arrays h' (s_base s) = arrays h (s_base s) \<Longrightarrow> slice_read h' s = slice_read h s"
  by (simp add: slice_read_def)

lemma append_Errors_frame:
  assumes "b < next_addr h" and "b \<noteq> s_base (Errors (groups h a))"
  shows "arrays (append_Errors h a e) b = arrays h b \<and>
         b < next_addr (append_Errors h a e) \<and>
         b \<noteq> s_base (Errors (groups (append_Errors h a e) a))"
  using assms by (auto simp: append_Errors_def slice_append_def Let_def)

lemma Append_frame:
  "Append n h g errs = Inr h' \<Longrightarrow> g = Some a \<Longrightarrow>
   b < next_addr h \<Longrightarrow> b \<noteq> s_base (Errors (groups h a)) \<Longrightarrow>
   arrays h' b = arrays h b \<and> b < next_addr h' \<and> b \<noteq> s_base (Errors (groups h' a))"
proof (induction n h g errs arbitrary: h' rule: Append.induct)
  case (1 n h g)
  then show ?case by simp
next
  case (2 n h g errs)
  then show ?case by simp
next
  case (3 n h g err errs)
  show ?case
  proof (cases "as_Group err")
    case (Some eg)
    with "3.prems"(1) obtain b' k h1 where eg: "eg = Some b'" and n: "n = Suc k"
      and r1: "Append k h g (SliceTypeAssert (elems h b')) = Inr h1"
      and r2: "Append n h1 g errs = Inr h'"
      by (auto split: option.splits nat.splits sum.splits)
    have s: "errors_As_Group (Some err) = Some eg" using Some by simp
    from "3.IH"(3) [OF s eg n r1 "3.prems"(2,3,4)]
    have f1: "arrays h1 b = arrays h b" "b < next_addr h1" "b \<noteq> s_base (Errors (groups h1 a))"
      by auto
    from "3.IH"(4) [OF s eg n r1 r2 "3.prems"(2) f1(2,3)] f1(1)
    show ?thesis by simp
  next
    case None
    have s: "errors_As_Group (Some err) = None" using None by simp
    obtain e where e: "(case errors_As_Error h (Some err) of Some e \<Rightarrow> Inr e
        | None \<Rightarrow> Wrap n h ErrUndefined (Some err)) = Inr e"
      by (cases "as_Error h err") auto
    have nz: "\<not> IsZero e" by simp
    from "3.prems"(1,2) None e have r: "Append n (append_Errors h a e) g errs = Inr h'"
      by (auto split: option.splits)
    from append_Errors_frame [OF "3.prems"(3,4), of e]
    have f1: "arrays (append_Errors h a e) b = arrays h b" "b < next_addr (append_Errors h a e)"
      "b \<noteq> s_base (Errors (groups (append_Errors h a e) a))" by auto
    from "3.IH"(2) [OF s e nz "3.prems"(2) r "3.prems"(2) f1(2,3)] f1(1)
    show ?thesis by simp
  qed
qed


lemma Translate_frame:
  assumes "Translate n tr h (Some a) = Inr h'" and "b \<noteq> s_base (Errors (groups h a))"
  shows "arrays h' b = arrays h b"
proof (cases tr)
  case None
  with assms(1) have "h' = h"
    by (simp add: Translate_def Translate_loop.simps split: if_splits)
  then show ?thesis by simp
next
  case (Some fn)
  from Translate_loop_result [of n fn h a 0] assms Some show ?thesis
    by (auto simp: Translate_def)
qed

lemma slice_store_frame:
  assumes "slice_store h s i v = Inr h'" and "b \<noteq> s_base s"
  shows "arrays h' b = arrays h b"
  using assms by (auto simp: slice_store_def split: if_splits)

text \<open>
  C7. \<^verbatim>\<open>ErrorGroup.Unwrap\<close> is nil for a nil or empty group and the single element
  itself for a group of one. For a group of two or more, whose array is allocated, it
  returns the chain of the group's elements, held in the slice \<^verbatim>\<open>errs\<close> whose array is
  new: the group still reads the same, and whatever \<^verbatim>\<open>Append\<close>, \<^verbatim>\<open>Translate\<close>
  or a store through \<^verbatim>\<open>g.Errors\<close> does to the group afterwards, \<^verbatim>\<open>errs\<close> still
  reads the elements the group had at the call.
\<close>

theorem ErrorGroup_Unwrap_cases:
  "ErrorGroup_Unwrap h None = (h, None) \<and>
   (elems h a = [] \<longrightarrow> ErrorGroup_Unwrap h (Some a) = (h, None)) \<and>
   (\<forall>x. elems h a = [x] \<longrightarrow> ErrorGroup_Unwrap h (Some a) = (h, Some (ErrorVal x))) \<and>
   (2 \<le> length (elems h a) \<and> s_base (Errors (groups h a)) < next_addr h \<longrightarrow>
      ErrorGroup_Unwrap h (Some a) = (fst (Unwrap_errs h a), Some (ChainVal (elems h a))) \<and>
      slice_read (fst (Unwrap_errs h a)) (snd (Unwrap_errs h a)) = elems h a \<and>
      elems (fst (Unwrap_errs h a)) a = elems h a \<and>
      (\<forall>n es h3. Append n (fst (Unwrap_errs h a)) (Some a) es = Inr h3 \<longrightarrow>
         slice_read h3 (snd (Unwrap_errs h a)) = elems h a) \<and>
      (\<forall>n tr h3. Translate n tr (fst (Unwrap_errs h a)) (Some a) = Inr h3 \<longrightarrow>
         slice_read h3 (snd (Unwrap_errs h a)) = elems h a) \<and>
      (\<forall>i v h3. slice_store (fst (Unwrap_errs h a))
                   (Errors (groups (fst (Unwrap_errs h a)) a)) i v = Inr h3 \<longrightarrow>
         slice_read h3 (snd (Unwrap_errs h a)) = elems h a))"
proof (intro conjI impI allI)
  show "ErrorGroup_Unwrap h None = (h, None)"
    by (simp add: ErrorGroup_Unwrap_def)
next
  assume "elems h a = []"
  then show "ErrorGroup_Unwrap h (Some a) = (h, None)"
    by (simp add: ErrorGroup_Unwrap_def elems_Nil_iff)
next
  fix x assume x: "elems h a = [x]"
  then have l: "s_len (Errors (groups h a)) = 1"
    using length_elems [of h a] by simp
  with x have "arrays h (s_base (Errors (groups h a))) (s_off (Errors (groups h a))) = x"
    by (simp add: elems_def slice_read_def)
  with l show "ErrorGroup_Unwrap h (Some a) = (h, Some (ErrorVal x))"
    by (simp add: ErrorGroup_Unwrap_def)
next
  let ?h2 = "fst (Unwrap_errs h a)" and ?errs = "snd (Unwrap_errs h a)"
  assume "2 \<le> length (elems h a) \<and> s_base (Errors (groups h a)) < next_addr h"
  then have two: "2 \<le> s_len (Errors (groups h a))"
    and al: "s_base (Errors (groups h a)) < next_addr h"
    by simp_all
  note f = Unwrap_errs_facts [OF al]
  show rd: "slice_read ?h2 ?errs = elems h a" by (rule f(5))
  from two rd show "ErrorGroup_Unwrap h (Some a) = (?h2, Some (ChainVal (elems h a)))"
    by (simp add: ErrorGroup_Unwrap_def split_def)
  from al have "arrays ?h2 (s_base (Errors (groups h a))) = arrays h (s_base (Errors (groups h a)))"
    by (intro f(4)) simp
  from slice_read_cong [OF this] show "elems ?h2 a = elems h a"
    by (simp add: elems_def f(1))
  have fresh: "s_base ?errs < next_addr ?h2" "s_base ?errs \<noteq> s_base (Errors (groups ?h2 a))"
    using al by (simp_all add: f(1,2,3))
  {
    fix n es h3 assume "Append n ?h2 (Some a) es = Inr h3"
    from Append_frame [OF this refl fresh] have "arrays h3 (s_base ?errs) = arrays ?h2 (s_base ?errs)"
      by simp
    from slice_read_cong [OF this] show "slice_read h3 ?errs = elems h a"
      using rd by simp
  }
  {
    fix n tr h3 assume "Translate n tr ?h2 (Some a) = Inr h3"
    from slice_read_cong [OF Translate_frame [OF this fresh(2)]]
    show "slice_read h3 ?errs = elems h a"
      using rd by simp
  }
  {
    fix i v h3 assume "slice_store ?h2 (Errors (groups ?h2 a)) i v = Inr h3"
    from slice_read_cong [OF slice_store_frame [OF this fresh(2)]]
    show "slice_read h3 ?errs = elems h a"
      using rd by simp
  }
qed

theorem ErrorGroup_Unwrap_cases_witness:
  "elems heap_empty_group 1 = [] \<and>
   ErrorGroup_Unwrap heap_empty_group (Some 1) = (heap_empty_group, None) \<and>
   elems heap_cab 1 = [errC] \<and>
   ErrorGroup_Unwrap heap_cab (Some 1) = (heap_cab, Some (ErrorVal errC)) \<and>
   2 \<le> length (elems heap_cab 2) \<and>
   s_base (Errors (groups heap_cab 2)) < next_addr heap_cab \<and>
   snd (ErrorGroup_Unwrap heap_cab (Some 2)) = Some (ChainVal [errA, errB]) \<and>
   elems_after (Translate 0 (Some translate_to_boom) (fst (Unwrap_errs heap_cab 2)) (Some 2)) 2
     = Inr [with_Wrapped ErrUndefined (Some boom), with_Wrapped ErrUndefined (Some boom)] \<and>
   read_after (Translate 0 (Some translate_to_boom) (fst (Unwrap_errs heap_cab 2)) (Some 2))
     (snd (Unwrap_errs heap_cab 2)) = Inr [errA, errB]"
proof -
  have e: "elems heap_empty_group 1 = []" by code_simp
  have c: "elems heap_cab 1 = [errC]" by code_simp
  have ab: "elems heap_cab 2 = [errA, errB]" by code_simp
  have two: "2 \<le> length (elems heap_cab 2) \<and> s_base (Errors (groups heap_cab 2)) < next_addr heap_cab"
    by code_simp
  have tr: "elems_after (Translate 0 (Some translate_to_boom) (fst (Unwrap_errs heap_cab 2)) (Some 2)) 2
     = Inr [with_Wrapped ErrUndefined (Some boom), with_Wrapped ErrUndefined (Some boom)]"
    by code_simp
  then obtain h3 where
    h3: "Translate 0 (Some translate_to_boom) (fst (Unwrap_errs heap_cab 2)) (Some 2) = Inr h3"
    by (auto simp: elems_after_def split: sum.splits)
  from ErrorGroup_Unwrap_cases [of heap_empty_group 1] e
  have u0: "ErrorGroup_Unwrap heap_empty_group (Some 1) = (heap_empty_group, None)"
    by blast
  from ErrorGroup_Unwrap_cases [of heap_cab 1] c
  have u1: "ErrorGroup_Unwrap heap_cab (Some 1) = (heap_cab, Some (ErrorVal errC))"
    by blast
  from ErrorGroup_Unwrap_cases [of heap_cab 2] two
  have u2: "ErrorGroup_Unwrap heap_cab (Some 2)
      = (fst (Unwrap_errs heap_cab 2), Some (ChainVal (elems heap_cab 2)))"
    and fr: "\<forall>n tr h3. Translate n tr (fst (Unwrap_errs heap_cab 2)) (Some 2) = Inr h3 \<longrightarrow>
         slice_read h3 (snd (Unwrap_errs heap_cab 2)) = elems heap_cab 2"
    by blast+
  from fr h3 have "slice_read h3 (snd (Unwrap_errs heap_cab 2)) = elems heap_cab 2"
    by blast
  with h3 ab have ra: "read_after (Translate 0 (Some translate_to_boom) (fst (Unwrap_errs heap_cab 2)) (Some 2))
     (snd (Unwrap_errs heap_cab 2)) = Inr [errA, errB]"
    by (simp add: read_after_def)
  from u2 ab have "snd (ErrorGroup_Unwrap heap_cab (Some 2)) = Some (ChainVal [errA, errB])"
    by simp
  with e c two tr u0 u1 ra show ?thesis by blast
qed

subsection \<open>AsGroup\<close>

lemma spec_terminal_As_Group: "spec_terminal e = Some t \<Longrightarrow> Error_As_Group e = as_Group t"
  by (induction e rule: spec_terminal.induct) simp_all

lemma spec_links_hd: "spec_links e = e # tl (spec_links e)"
  by (induction e rule: spec_links.induct) simp_all

lemma spec_links_ne [simp]: "spec_links e \<noteq> []"
  by (induction e rule: spec_links.induct) simp_all

lemma AsGroup_loop_terminal:
  assumes "Wrapped err = Some t" and "as_Group t = None" and "as_Error h t = None"
  shows "\<exists>h'. AsGroup_loop n h g err = Inr h' \<and>
              elems h' g = elems h g @ [with_Wrapped ErrUndefined (Some t)]"
proof -
  let ?h1 = "append_Errors h g (with_Wrapped ErrUndefined (Some t))"
  have t1: "as_Error ?h1 t = None"
    using as_Error_heap_indep [OF assms(2), of ?h1 h] assms(3) by simp
  have "AsGroup_loop n h g err = Inr ?h1"
    using assms t1 by (subst AsGroup_loop.simps) simp
  then show ?thesis by (simp add: elems_append_Errors)
qed

lemma AsGroup_loop_links:
  "spec_terminal err = Some t \<Longrightarrow> as_Group t = None \<Longrightarrow> as_Error h t = None \<Longrightarrow>
   length (spec_links err) \<le> Suc n \<Longrightarrow>
   \<exists>h'. AsGroup_loop n h g err = Inr h' \<and>
        elems h' g = elems h g @ tl (spec_links err) @ [with_Wrapped ErrUndefined (Some t)]"
proof (induction err arbitrary: h n rule: spec_links.induct)
  case (1 c x f m nn e)
  let ?err = "Error c x f m nn (Some (ErrorVal e))"
  from "1.prems" have te: "spec_terminal e = Some t" by simp
  from spec_terminal_As_Group [OF te] "1.prems"(2) have pe: "Error_As_Group e = None" by simp
  from "1.prems"(4) obtain k where n: "n = Suc k" and len: "length (spec_links e) \<le> Suc k"
    by (cases n) simp_all
  let ?h1 = "append_Errors h g e"
  have t1: "as_Error ?h1 t = None"
    using as_Error_heap_indep [OF "1.prems"(2), of ?h1 h] "1.prems"(3) by simp
  from "1.IH" [OF te "1.prems"(2) t1 len] obtain h' where
    r: "AsGroup_loop k ?h1 g e = Inr h'"
    and el: "elems h' g = elems ?h1 g @ tl (spec_links e) @ [with_Wrapped ErrUndefined (Some t)]"
    by blast
  have "AsGroup_loop n h g ?err = Inr h'"
    by (subst AsGroup_loop.simps) (simp add: pe n r)
  moreover have "elems h g @ [e] @ tl (spec_links e) = elems h g @ spec_links e"
    by (subst (2) spec_links_hd) simp
  then have "elems h' g = elems h g @ tl (spec_links ?err) @ [with_Wrapped ErrUndefined (Some t)]"
    using el by (simp add: elems_append_Errors)
  ultimately show ?case by blast
qed (auto intro!: AsGroup_loop_terminal)


lemma elems_new_group:
  "elems (fst (new_group h c)) (snd (new_group h c)) = []"
  by (simp add: new_group_def slice_make_def elems_def slice_read_def Let_def)

text \<open>
  C1 as stated fails: for \<open>errA\<close> wrapping a foreign error the links are \<open>errA\<close> alone,
  and the group has a second element, \<^verbatim>\<open>ErrUndefined\<close> wrapping the foreign error.
\<close>

theorem AsGroup_includes_terminal_cause:
  "spec_terminal errA_boom = Some boom \<and> is_Error boom = False \<and>
   spec_links errA_boom = [errA_boom] \<and>
   elems_of_new (AsGroup 0 heap0 errA_boom)
     = Inr [errA_boom, with_Wrapped ErrUndefined (Some boom)]"
  by code_simp

text \<open>
  C1, amended. For an \<^verbatim>\<open>Error\<close> whose chain of \<^verbatim>\<open>Error\<close> links ends in a cause in
  which \<^verbatim>\<open>errors.As\<close> finds neither a group nor an \<^verbatim>\<open>Error\<close>, \<^verbatim>\<open>AsGroup\<close>
  returns a new group that holds the links, root first, followed by \<^verbatim>\<open>ErrUndefined\<close>
  wrapping that cause. One iteration per link is enough.
\<close>

theorem AsGroup_links_then_terminal:
  assumes "spec_terminal e = Some t" and "as_Group t = None" and "as_Error h t = None"
    and "length (spec_links e) \<le> Suc n"
  shows "elems_of_new (AsGroup n h e)
           = Inr (spec_links e @ [with_Wrapped ErrUndefined (Some t)])"
proof -
  let ?h1 = "fst (new_group h (length [Some (ErrorVal e)]))"
  let ?g = "snd (new_group h (length [Some (ErrorVal e)]))"
  from spec_terminal_As_Group [OF assms(1)] assms(2) have pe: "Error_As_Group e = None"
    by simp
  let ?h2 = "append_Errors ?h1 ?g e"
  have new: "NewErrorGroup n h [Some (ErrorVal e)] = Inr (?h2, ?g)"
    using pe by (simp add: NewErrorGroup_def split_def Let_def)
  have e2: "elems ?h2 ?g = [e]"
    by (simp only: elems_append_Errors elems_new_group append_Nil)
  have t2: "as_Error ?h2 t = None"
    using as_Error_heap_indep [OF assms(2), of ?h2 h] assms(3) by simp
  from AsGroup_loop_links [OF assms(1,2) t2 assms(4), of ?g] e2 obtain h' where
    r: "AsGroup_loop n ?h2 ?g e = Inr h'"
    and el: "elems h' ?g = [e] @ tl (spec_links e) @ [with_Wrapped ErrUndefined (Some t)]"
    by auto
  have "[e] @ tl (spec_links e) = spec_links e"
    by (subst (2) spec_links_hd) simp
  with el have "elems h' ?g = spec_links e @ [with_Wrapped ErrUndefined (Some t)]"
    by simp
  with new r show ?thesis
    by (simp add: AsGroup_def elems_of_new_def)
qed

theorem AsGroup_links_then_terminal_witness:
  "spec_terminal errA_errB_boom = Some boom \<and> as_Group boom = None \<and>
   as_Error heap0 boom = None \<and> length (spec_links errA_errB_boom) \<le> Suc 1 \<and>
   elems_of_new (AsGroup 1 heap0 errA_errB_boom)
     = Inr [errA_errB_boom, with_Wrapped errB (Some boom),
            with_Wrapped ErrUndefined (Some boom)]"
proof -
  have t: "spec_terminal errA_errB_boom = Some boom" by code_simp
  have g: "as_Group boom = None" by code_simp
  have e: "as_Error heap0 boom = None" by code_simp
  have ls: "spec_links errA_errB_boom = [errA_errB_boom, with_Wrapped errB (Some boom)]"
    by code_simp
  then have l: "length (spec_links errA_errB_boom) \<le> Suc 1" by simp
  show ?thesis
    using AsGroup_links_then_terminal [OF t g e l] t g e l ls by simp
qed

end
